theory Spec2Isabelle
  imports Main
begin

section \<open>What the library consumes: source sequences, cursors, object types\<close>

text \<open>
  The header \<^verbatim>\<open>take_before.hpp\<close> is written against \<^verbatim>\<open>std::ranges\<close>. A source
  sequence \<^verbatim>\<open>V\<close> is modelled by the finite list of its elements, a cursor
  (\<^verbatim>\<open>iterator_t<V>\<close>) and the source's own end (\<^verbatim>\<open>sentinel_t<V>\<close>) by an index into
  that list. Reading through a cursor that is not dereferenceable, through a null or
  dangling pointer, or through a disengaged \<^verbatim>\<open>std::optional\<close> is undefined behaviour
  in C++; each is a \<open>fault\<close> of the model.
\<close>

datatype fault = PastTheEnd | NullPointer | Dangling | DisengagedOptional

type_synonym cursor = nat

type_synonym addr = nat

definition ranges_begin :: "'e list \<Rightarrow> cursor" where
  "ranges_begin xs = 0"

definition ranges_end :: "'e list \<Rightarrow> cursor" where
  "ranges_end xs = length xs"

definition deref :: "'e list \<Rightarrow> cursor \<Rightarrow> fault + 'e" where
  "deref xs x = (if x < length xs then Inr (xs ! x) else Inl PastTheEnd)"

text \<open>
  What the templates ask of the sentinel type \<^verbatim>\<open>T\<close>: the three compiler traits that
  \<^verbatim>\<open>tidy_obj\<close> reads, the value \<^verbatim>\<open>T()\<close>, and \<^verbatim>\<open>operator==\<close> between a \<^verbatim>\<open>T\<close>
  (left operand) and an element of the sequence (right operand). They are parameters of
  the model, as they are parameters of the templates.
\<close>

record ('t, 'e) object_type =
  is_empty :: bool
  is_trivially_default_constructible :: bool
  is_trivially_destructible :: bool
  construct :: 't
  equal_to :: "'t \<Rightarrow> 'e \<Rightarrow> bool"

text \<open>
  An object of an empty class has no data member, so it carries no information: it is
  the value that \<^verbatim>\<open>T()\<close> builds. This is the only link between the trait
  \<^verbatim>\<open>std::is_empty_v<T>\<close> and the values of \<open>'t\<close>.
\<close>

definition is_value_of :: "('t, 'e) object_type \<Rightarrow> 't \<Rightarrow> bool" where
  "is_value_of T v = (is_empty T \<longrightarrow> v = construct T)"

section \<open>\<^verbatim>\<open>tidy_obj\<close> and \<^verbatim>\<open>movable_box\<close>\<close>

definition tidy_obj :: "('t, 'e) object_type \<Rightarrow> bool" where
  "tidy_obj T =
     (is_empty T \<and> is_trivially_default_constructible T \<and> is_trivially_destructible T)"

type_synonym 't movable_box = "'t option"

section \<open>\<^verbatim>\<open>take_before_view\<close>\<close>

text \<open>The members \<^verbatim>\<open>base_\<close> and \<^verbatim>\<open>value_\<close> are \<open>view_base\<close> and \<open>view_value\<close>.\<close>

record ('e, 't) take_before_view =
  view_base :: "'e list"
  view_value :: "'t movable_box"

text \<open>
  View objects live in a store; \<^verbatim>\<open>this\<close> is an address. The pointer
  \<^verbatim>\<open>std::addressof(*value_)\<close> taken inside the view at address \<open>a\<close> is \<open>Some a\<close>,
  \<^verbatim>\<open>nullptr\<close> is \<open>None\<close>.
\<close>

type_synonym ('e, 't) store = "addr \<rightharpoonup> ('e, 't) take_before_view"

text \<open>
  \<^verbatim>\<open>take_before_view() = default\<close>: \<^verbatim>\<open>base_\<close> is \<^verbatim>\<open>V()\<close> (a parameter here), and
  \<^verbatim>\<open>value_\<close> is a default-constructed \<^verbatim>\<open>std::optional<T>\<close>, which holds no value.
\<close>

definition take_before_view_default :: "'e list \<Rightarrow> ('e, 't) take_before_view" where
  "take_before_view_default V_default = \<lparr>view_base = V_default, view_value = None\<rparr>"

text \<open>
  The two value constructors differ in how the value reaches the box (copy or move);
  both leave the box engaged with that value.
\<close>

definition take_before_view_ctor :: "'e list \<Rightarrow> 't \<Rightarrow> ('e, 't) take_before_view" where
  "take_before_view_ctor base v = \<lparr>view_base = base, view_value = Some v\<rparr>"

section \<open>\<^verbatim>\<open>take_before_view::sentinel\<close>\<close>

text \<open>
  The members \<^verbatim>\<open>end_\<close> and \<^verbatim>\<open>value_\<close> of the sentinel are \<open>sentinel_end\<close> and
  \<open>sentinel_value\<close>; a name of a constant cannot end in an underscore.
\<close>

record sentinel =
  sentinel_end :: cursor
  sentinel_value :: "addr option"

definition sentinel_with_value :: "cursor \<Rightarrow> addr option \<Rightarrow> sentinel" where
  "sentinel_with_value e p = \<lparr>sentinel_end = e, sentinel_value = p\<rparr>"

definition sentinel_tidy :: "cursor \<Rightarrow> sentinel" where
  "sentinel_tidy e = \<lparr>sentinel_end = e, sentinel_value = None\<rparr>"

text \<open>
  The converting constructor \<^verbatim>\<open>sentinel(sentinel<!Const> s) requires Const && ...\<close>.
  \<open>Const\<close> is the template argument of the sentinel being built; where the
  requires-clause fails there is no constructor, which is \<open>None\<close>. Both access modes
  of a list have the same end type, so the \<^verbatim>\<open>convertible_to\<close> conjunct holds.
\<close>

definition sentinel_convert ::
  "bool \<Rightarrow> ('t, 'e) object_type \<Rightarrow> sentinel \<Rightarrow> sentinel option" where
  "sentinel_convert Const T s =
     (if Const
      then Some \<lparr>sentinel_end = sentinel_end s,
                 sentinel_value = (if \<not> tidy_obj T then sentinel_value s else None)\<rparr>
      else None)"

definition sentinel_base :: "sentinel \<Rightarrow> cursor" where
  "sentinel_base s = sentinel_end s"

text \<open>Reading \<^verbatim>\<open>*y.value_\<close>: the pointer leads into the box of a view in the store.\<close>

definition read_value :: "('e, 't) store \<Rightarrow> addr option \<Rightarrow> fault + 't" where
  "read_value h p =
     (case p of
        None \<Rightarrow> Inl NullPointer
      | Some a \<Rightarrow>
          (case h a of
             None \<Rightarrow> Inl Dangling
           | Some v \<Rightarrow>
               (case view_value v of None \<Rightarrow> Inl DisengagedOptional | Some t \<Rightarrow> Inr t)))"

text \<open>
  \<^verbatim>\<open>operator==(const iterator_t<Base>& x, const sentinel& y)\<close>. The two branches of
  \<^verbatim>\<open>if constexpr (tidy_obj<T>)\<close> are given as functions of their own; \<open>||\<close> evaluates
  its right operand only when the left one is false.
\<close>

definition sentinel_eq_tidy ::
  "('t, 'e) object_type \<Rightarrow> 'e list \<Rightarrow> cursor \<Rightarrow> sentinel \<Rightarrow> fault + bool" where
  "sentinel_eq_tidy T xs x y =
     (if sentinel_end y = x then Inr True
      else (case deref xs x of
              Inl f \<Rightarrow> Inl f
            | Inr e \<Rightarrow> Inr (equal_to T (construct T) e)))"

definition sentinel_eq_value ::
  "('t, 'e) object_type \<Rightarrow> ('e, 't) store \<Rightarrow> 'e list \<Rightarrow> cursor \<Rightarrow> sentinel \<Rightarrow> fault + bool" where
  "sentinel_eq_value T h xs x y =
     (if sentinel_end y = x then Inr True
      else (case read_value h (sentinel_value y) of
              Inl f \<Rightarrow> Inl f
            | Inr v \<Rightarrow>
                (case deref xs x of
                   Inl f \<Rightarrow> Inl f
                 | Inr e \<Rightarrow> Inr (equal_to T v e))))"

definition sentinel_eq ::
  "('t, 'e) object_type \<Rightarrow> ('e, 't) store \<Rightarrow> 'e list \<Rightarrow> cursor \<Rightarrow> sentinel \<Rightarrow> fault + bool" where
  "sentinel_eq T h xs x y =
     (if tidy_obj T then sentinel_eq_tidy T xs x y else sentinel_eq_value T h xs x y)"

text \<open>
  The second overload, for cursors of the other access mode
  (\<^verbatim>\<open>iterator_t<maybe_const<OtherConst, V>>\<close>), has the same body.
\<close>

definition sentinel_eq_other ::
  "('t, 'e) object_type \<Rightarrow> ('e, 't) store \<Rightarrow> 'e list \<Rightarrow> cursor \<Rightarrow> sentinel \<Rightarrow> fault + bool" where
  "sentinel_eq_other T h xs x y =
     (if tidy_obj T
      then (if sentinel_end y = x then Inr True
            else (case deref xs x of
                    Inl f \<Rightarrow> Inl f
                  | Inr e \<Rightarrow> Inr (equal_to T (construct T) e)))
      else (if sentinel_end y = x then Inr True
            else (case read_value h (sentinel_value y) of
                    Inl f \<Rightarrow> Inl f
                  | Inr v \<Rightarrow>
                      (case deref xs x of
                         Inl f \<Rightarrow> Inl f
                       | Inr e \<Rightarrow> Inr (equal_to T v e)))))"

text \<open>
  The header defines \<^verbatim>\<open>operator==\<close> with the cursor on the left only. For
  \<^verbatim>\<open>marker == cursor\<close> C++20 takes the same function with its operands exchanged
  (the rewritten candidate of overload resolution).
\<close>

definition sentinel_eq_reversed ::
  "('t, 'e) object_type \<Rightarrow> ('e, 't) store \<Rightarrow> 'e list \<Rightarrow> sentinel \<Rightarrow> cursor \<Rightarrow> fault + bool" where
  "sentinel_eq_reversed T h xs y x = sentinel_eq T h xs x y"

section \<open>\<^verbatim>\<open>begin()\<close> and \<^verbatim>\<open>end()\<close>\<close>

text \<open>
  Member functions take the store and \<^verbatim>\<open>this\<close> and return their result with the
  store they leave behind. The const and non-const overloads have the same bodies.
\<close>

definition take_before_view_begin ::
  "('e, 't) store \<Rightarrow> addr \<Rightarrow> fault + (cursor \<times> ('e, 't) store)" where
  "take_before_view_begin h this =
     (case h this of
        None \<Rightarrow> Inl Dangling
      | Some v \<Rightarrow> Inr (ranges_begin (view_base v), h))"

definition take_before_view_end ::
  "('t, 'e) object_type \<Rightarrow> ('e, 't) store \<Rightarrow> addr \<Rightarrow> fault + (sentinel \<times> ('e, 't) store)" where
  "take_before_view_end T h this =
     (case h this of
        None \<Rightarrow> Inl Dangling
      | Some v \<Rightarrow>
          (if tidy_obj T then Inr (sentinel_tidy (ranges_end (view_base v)), h)
           else (case view_value v of
                   None \<Rightarrow> Inl DisengagedOptional
                 | Some t \<Rightarrow> Inr (sentinel_with_value (ranges_end (view_base v)) (Some this), h))))"

section \<open>\<^verbatim>\<open>enable_borrowed_range\<close>\<close>

text \<open>The first argument is \<^verbatim>\<open>enable_borrowed_range<V>\<close>.\<close>

definition enable_borrowed_range_take_before_view ::
  "bool \<Rightarrow> ('t, 'e) object_type \<Rightarrow> bool" where
  "enable_borrowed_range_take_before_view enable_borrowed_range_V T =
     (enable_borrowed_range_V \<and> tidy_obj T)"

section \<open>The adaptor \<^verbatim>\<open>views::take_before\<close>\<close>

text \<open>
  \<^verbatim>\<open>views::all\<close> keeps the elements of the range it wraps. Of \<^verbatim>\<open>take_before_fn\<close>
  the overloads for a range and for a single value are given; the overload for an
  iterator with \<^verbatim>\<open>std::unreachable_sentinel\<close> ranges over a sequence without an end,
  which a finite list does not represent.
\<close>

definition views_all :: "'e list \<Rightarrow> 'e list" where
  "views_all r = r"







text \<open>
  The overload of \<^verbatim>\<open>take_before_fn\<close> for a range: \<open>take_before_fn_range\<close> is the view
  its body builds, \<open>take_before_fn_range_call\<close> the call with its requires-clause, for an
  argument \<^verbatim>\<open>value\<close> of category \<open>c\<close>, which the body forwards.
\<close>

definition take_before_fn_range :: "'e list \<Rightarrow> 't \<Rightarrow> ('e, 't) take_before_view" where
  "take_before_fn_range r v = take_before_view_ctor (views_all r) v"



section \<open>Iterating a view\<close>

text \<open>
  The range-based \<^verbatim>\<open>for\<close> loop of the examples:
  \<^verbatim>\<open>for (auto it = b.begin(), e = b.end(); it != e; ++it) { ... *it ... }\<close>.
  The loop returns the elements it visited and the cursor at which it stopped.
\<close>

function for_loop ::
  "('t, 'e) object_type \<Rightarrow> ('e, 't) store \<Rightarrow> 'e list \<Rightarrow> cursor \<Rightarrow> sentinel
     \<Rightarrow> fault + ('e list \<times> cursor)" where
  "for_loop T h xs it s =
     (case sentinel_eq T h xs it s of
        Inl f \<Rightarrow> Inl f
      | Inr b \<Rightarrow>
          (if b then Inr ([], it)
           else (case deref xs it of
                   Inl f \<Rightarrow> Inl f
                 | Inr e \<Rightarrow>
                     (case for_loop T h xs (Suc it) s of
                        Inl f \<Rightarrow> Inl f
                      | Inr (es, stop) \<Rightarrow> Inr (e # es, stop)))))"
  by pat_completeness auto
termination
  by (relation "measure (\<lambda>(T, h, xs, it, s). length xs - it)")
     (auto simp: deref_def split: if_splits)

declare for_loop.simps [simp del]

definition iterate ::
  "('t, 'e) object_type \<Rightarrow> ('e, 't) store \<Rightarrow> addr
     \<Rightarrow> fault + (('e list \<times> cursor) \<times> ('e, 't) store)" where
  "iterate T h this =
     (case take_before_view_begin h this of
        Inl f \<Rightarrow> Inl f
      | Inr (it, h1) \<Rightarrow>
          (case take_before_view_end T h1 this of
             Inl f \<Rightarrow> Inl f
           | Inr (s, h2) \<Rightarrow>
               (case h2 this of
                  None \<Rightarrow> Inl Dangling
                | Some v \<Rightarrow>
                    (case for_loop T h2 (view_base v) it s of
                       Inl f \<Rightarrow> Inl f
                     | Inr r \<Rightarrow> Inr (r, h2)))))"

text \<open>
  Iterating the same view object twice, one run after the other, as the test
  \<^verbatim>\<open>multiple_iterations\<close> of the README does; the second run starts from the store
  that the first one leaves.
\<close>

definition iterate_twice ::
  "('t, 'e) object_type \<Rightarrow> ('e, 't) store \<Rightarrow> addr
     \<Rightarrow> fault + (('e list \<times> cursor) \<times> ('e list \<times> cursor) \<times> ('e, 't) store)" where
  "iterate_twice T h this =
     (case iterate T h this of
        Inl f \<Rightarrow> Inl f
      | Inr (r1, h1) \<Rightarrow>
          (case iterate T h1 this of
             Inl f \<Rightarrow> Inl f
           | Inr (r2, h2) \<Rightarrow> Inr (r1, r2, h2)))"

section \<open>Two sentinel types\<close>

text \<open>
  \<^verbatim>\<open>int\<close> compared with \<^verbatim>\<open>int\<close> elements: not empty, hence not tidy. And a constant
  wrapper in the manner of \<^verbatim>\<open>std::integral_constant<int, c>\<close>, compared with
  \<^verbatim>\<open>int\<close> elements through its constant: an empty class with trivial construction and
  destruction.
\<close>

definition object_type_int :: "(int, int) object_type" where
  "object_type_int =
     \<lparr>is_empty = False, is_trivially_default_constructible = True,
      is_trivially_destructible = True, construct = 0, equal_to = (=)\<rparr>"

definition integral_constant :: "int \<Rightarrow> (unit, int) object_type" where
  "integral_constant c =
     \<lparr>is_empty = True, is_trivially_default_constructible = True,
      is_trivially_destructible = True, construct = (), equal_to = (\<lambda>_ e. c = e)\<rparr>"

section \<open>The end marker and the loop\<close>

lemma sentinel_eq_at:
  assumes "sentinel_end s = length xs"
    and "tidy_obj T \<or> read_value h (sentinel_value s) = Inr v"
    and "w = (if tidy_obj T then construct T else v)"
  shows "sentinel_eq T h xs it s =
           (if it = length xs then Inr True
            else if it < length xs then Inr (equal_to T w (xs ! it))
            else Inl PastTheEnd)"
  using assms
  by (auto simp: sentinel_eq_def sentinel_eq_tidy_def sentinel_eq_value_def deref_def)

lemma for_loop_takeWhile:
  assumes "sentinel_end s = length xs"
    and "tidy_obj T \<or> read_value h (sentinel_value s) = Inr v"
    and "w = (if tidy_obj T then construct T else v)"
    and "it \<le> length xs"
  shows "for_loop T h xs it s =
           Inr (takeWhile (\<lambda>e. \<not> equal_to T w e) (drop it xs),
                it + length (takeWhile (\<lambda>e. \<not> equal_to T w e) (drop it xs)))"
  using assms(4)
proof (induction "length xs - it" arbitrary: it)
  case 0
  then have "it = length xs" by simp
  then show ?case
    by (subst for_loop.simps) (simp add: sentinel_eq_at [OF assms(1-3)])
next
  case (Suc n)
  then have lt: "it < length xs" by simp
  have step: "drop it xs = xs ! it # drop (Suc it) xs"
    using lt by (simp add: Cons_nth_drop_Suc)
  have IH: "for_loop T h xs (Suc it) s =
           Inr (takeWhile (\<lambda>e. \<not> equal_to T w e) (drop (Suc it) xs),
                Suc it + length (takeWhile (\<lambda>e. \<not> equal_to T w e) (drop (Suc it) xs)))"
    using Suc lt by (intro Suc.hyps(1)) simp_all
  show ?case
    using lt
    by (subst for_loop.simps) (simp add: sentinel_eq_at [OF assms(1-3)] step IH deref_def)
qed

lemma end_of_engaged_view:
  assumes "h this = Some v" and "view_value v = Some x"
  shows "\<exists>y. take_before_view_end T h this = Inr (y, h)
             \<and> sentinel_end y = length (view_base v)
             \<and> (tidy_obj T \<or> read_value h (sentinel_value y) = Inr x)"
  using assms
  by (simp add: take_before_view_end_def sentinel_tidy_def sentinel_with_value_def
      ranges_end_def read_value_def)

lemma iterate_engaged_view:
  assumes "h this = Some v" and "view_value v = Some x"
    and "w = (if tidy_obj T then construct T else x)"
  shows "iterate T h this =
           Inr ((takeWhile (\<lambda>e. \<not> equal_to T w e) (view_base v),
                 length (takeWhile (\<lambda>e. \<not> equal_to T w e) (view_base v))), h)"
proof -
  obtain y where y: "take_before_view_end T h this = Inr (y, h)"
      "sentinel_end y = length (view_base v)"
      "tidy_obj T \<or> read_value h (sentinel_value y) = Inr x"
    using end_of_engaged_view [where h = h and this = this and T = T, OF assms(1,2)] by blast
  have "for_loop T h (view_base v) 0 y =
          Inr (takeWhile (\<lambda>e. \<not> equal_to T w e) (drop 0 (view_base v)),
               0 + length (takeWhile (\<lambda>e. \<not> equal_to T w e) (drop 0 (view_base v))))"
    by (rule for_loop_takeWhile [OF y(2) y(3) assms(3)]) simp
  then show ?thesis
    using assms(1) y(1)
    by (simp add: iterate_def take_before_view_begin_def ranges_begin_def)
qed

lemma effective_value:
  "is_value_of T x \<Longrightarrow> (if tidy_obj T then construct T else x) = x"
  by (simp add: is_value_of_def tidy_obj_def)

lemma iterate_ctor:
  assumes "h this = Some (take_before_view_ctor S x)" and "is_value_of T x"
  shows "iterate T h this =
           Inr ((takeWhile (\<lambda>e. \<not> equal_to T x e) S,
                 length (takeWhile (\<lambda>e. \<not> equal_to T x e) S)), h)"
proof -
  have "iterate T h this =
          Inr ((takeWhile (\<lambda>e. \<not> equal_to T x e) (view_base (take_before_view_ctor S x)),
                length (takeWhile (\<lambda>e. \<not> equal_to T x e)
                  (view_base (take_before_view_ctor S x)))), h)"
    by (rule iterate_engaged_view [where h = h and this = this, OF assms(1) _
          effective_value [OF assms(2), symmetric]])
       (simp add: take_before_view_ctor_def)
  then show ?thesis
    by (simp add: take_before_view_ctor_def)
qed

lemma takeWhile_first_match:
  assumes "p < length xs" and "\<not> P (xs ! p)" and "\<forall>i<p. P (xs ! i)"
  shows "takeWhile P xs = take p xs"
proof -
  have "takeWhile P (take p xs @ drop p xs) = take p xs @ takeWhile P (drop p xs)"
    using assms by (intro takeWhile_append2) (auto simp: in_set_conv_nth)
  moreover have "drop p xs = xs ! p # drop (Suc p) xs"
    using assms(1) by (simp add: Cons_nth_drop_Suc)
  ultimately have "takeWhile P (take p xs @ drop p xs) = take p xs"
    using assms(2) by simp
  then show ?thesis by simp
qed

section \<open>First match\<close>

text \<open>
  C1. Let the sentinel value \<open>x\<close> occur in the finite sequence \<open>S\<close>, and let \<open>p1\<close> be
  the least index whose element \<open>x\<close> compares equal to. Iterating the view built from
  \<open>S\<close> and \<open>x\<close> visits exactly the elements of \<open>S\<close> at the indices below \<open>p1\<close>, in
  order, and stops at \<open>p1\<close>; what follows \<open>p1\<close> in \<open>S\<close> plays no part.
\<close>

theorem first_match:
  assumes "h this = Some (take_before_view_ctor S x)" and "is_value_of T x"
    and "p1 < length S" and "equal_to T x (S ! p1)" and "\<forall>i<p1. \<not> equal_to T x (S ! i)"
  shows "iterate T h this = Inr ((take p1 S, p1), h)"
proof -
  have "takeWhile (\<lambda>e. \<not> equal_to T x e) S = take p1 S"
    using assms(3-5) by (intro takeWhile_first_match) simp_all
  then show ?thesis
    using assms(3) by (simp add: iterate_ctor [where h = h and this = this, OF assms(1,2)])
qed

theorem first_match_witness:
  "(Map.empty(0 \<mapsto> take_before_view_ctor [1, 2, 3, 2, 4, 2, 5] 2)) 0
      = Some (take_before_view_ctor [1, 2, 3, 2, 4, 2, 5] 2)
   \<and> is_value_of object_type_int 2
   \<and> (1::nat) < length [1, 2, 3, 2, 4, 2, 5 :: int]
   \<and> equal_to object_type_int 2 ([1, 2, 3, 2, 4, 2, 5] ! 1)
   \<and> \<not> equal_to object_type_int 2 ([1, 2, 3, 2, 4, 2, 5] ! 0)
   \<and> iterate object_type_int (Map.empty(0 \<mapsto> take_before_view_ctor [1, 2, 3, 2, 4, 2, 5] 2)) 0
       = Inr (([1], 1), Map.empty(0 \<mapsto> take_before_view_ctor [1, 2, 3, 2, 4, 2, 5] 2))"
  using first_match [of "Map.empty(0 \<mapsto> take_before_view_ctor [1, 2, 3, 2, 4, 2, 5] 2)" 0
      "[1, 2, 3, 2, 4, 2, 5]" 2 object_type_int 1]
  by (simp add: object_type_int_def is_value_of_def)

section \<open>Borrowing\<close>

text \<open>
  C3. \<^verbatim>\<open>take_before_view<V, T>\<close> is a borrowed range exactly when \<^verbatim>\<open>V\<close> is one and
  \<^verbatim>\<open>T\<close> is empty, trivially default-constructible and trivially destructible; for a
  \<^verbatim>\<open>T\<close> that misses one of the three, the view is not borrowed, whatever \<^verbatim>\<open>V\<close> is.
\<close>

theorem borrowed_iff_base_borrowed_and_tidy:
  "(enable_borrowed_range_take_before_view bV T \<longleftrightarrow>
      bV \<and> is_empty T \<and> is_trivially_default_constructible T \<and> is_trivially_destructible T)
   \<and> (\<not> (is_empty T \<and> is_trivially_default_constructible T \<and> is_trivially_destructible T)
        \<longrightarrow> \<not> enable_borrowed_range_take_before_view bV T)"
  by (simp add: enable_borrowed_range_take_before_view_def tidy_obj_def)

theorem borrowed_iff_base_borrowed_and_tidy_witness:
  "enable_borrowed_range_take_before_view True (integral_constant 0)
   \<and> \<not> is_empty object_type_int
   \<and> \<not> enable_borrowed_range_take_before_view True object_type_int"
  using borrowed_iff_base_borrowed_and_tidy [of True "integral_constant 0"]
    borrowed_iff_base_borrowed_and_tidy [of True object_type_int]
  by (simp add: integral_constant_def object_type_int_def)

section \<open>Absence\<close>

text \<open>
  C4. When the sentinel value \<open>x\<close> compares equal to no element of the finite sequence
  \<open>S\<close>, iterating the view built from \<open>S\<close> and \<open>x\<close> visits all of \<open>S\<close>, in the
  same order and number, and stops at the end of \<open>S\<close> itself.
\<close>

theorem absence:
  assumes "h this = Some (take_before_view_ctor S x)" and "is_value_of T x"
    and "\<forall>e\<in>set S. \<not> equal_to T x e"
  shows "iterate T h this = Inr ((S, ranges_end S), h)"
proof -
  have tw: "takeWhile (\<lambda>e. \<not> equal_to T x e) S = S"
    using assms(3) by (simp add: takeWhile_eq_all_conv)
  show ?thesis
    by (simp add: iterate_ctor [where h = h and this = this, OF assms(1,2)] tw ranges_end_def)
qed

theorem absence_witness:
  "(Map.empty(0 \<mapsto> take_before_view_ctor [1, 2, 3] 7)) 0 = Some (take_before_view_ctor [1, 2, 3] 7)
   \<and> is_value_of object_type_int 7
   \<and> list_all (\<lambda>e. \<not> equal_to object_type_int 7 e) [1, 2, 3]
   \<and> iterate object_type_int (Map.empty(0 \<mapsto> take_before_view_ctor [1, 2, 3] 7)) 0
       = Inr (([1, 2, 3], 3), Map.empty(0 \<mapsto> take_before_view_ctor [1, 2, 3] 7))"
  using absence [of "Map.empty(0 \<mapsto> take_before_view_ctor [1, 2, 3] 7)" 0 "[1, 2, 3]" 7
      object_type_int]
  by (simp add: object_type_int_def is_value_of_def ranges_end_def)

section \<open>Composition with a mapping\<close>

text \<open>
  C5. The adaptor applied to the mapped sequence \<open>map f S\<close> with the value \<open>x\<close>
  yields the elements of \<open>map f S\<close> before the first index \<open>n\<close> at which \<open>x\<close>
  compares equal to \<open>f (S ! n)\<close> (all of them when there is no such index). With
  \<open>S = [1, 2, 3, 4, 5]\<close>, doubling and \<open>x = 6\<close> the result is \<open>[2, 4]\<close>.
\<close>

theorem composition:
  assumes "h this = Some (take_before_fn_range (map f S) x)" and "is_value_of T x"
    and "n \<le> length S" and "\<forall>i<n. \<not> equal_to T x (f (S ! i))"
    and "n < length S \<longrightarrow> equal_to T x (f (S ! n))"
  shows "iterate T h this = Inr ((map f (take n S), n), h)"
proof -
  have tw: "takeWhile (\<lambda>e. \<not> equal_to T x e) (map f S) = take n (map f S)"
  proof (cases "n < length S")
    case True
    then show ?thesis
      using assms(4,5) by (intro takeWhile_first_match) simp_all
  next
    case False
    then have n: "n = length S" using assms(3) by simp
    have "\<forall>e\<in>set (map f S). \<not> equal_to T x e"
      using assms(4) n by (auto simp: in_set_conv_nth)
    then have "takeWhile (\<lambda>e. \<not> equal_to T x e) (map f S) = map f S"
      by (simp only: takeWhile_eq_all_conv)
    then show ?thesis
      using n by simp
  qed
  have "h this = Some (take_before_view_ctor (map f S) x)"
    using assms(1) by (simp add: take_before_fn_range_def views_all_def)
  from iterate_ctor [where h = h and this = this, OF this assms(2)]
  show ?thesis
    using assms(3) by (simp add: tw take_map)
qed

theorem composition_witness:
  "(Map.empty(0 \<mapsto> take_before_fn_range (map (\<lambda>v. v * 2) [1, 2, 3, 4, 5]) 6)) 0
      = Some (take_before_fn_range (map (\<lambda>v. v * 2) [1, 2, 3, 4, 5]) 6)
   \<and> is_value_of object_type_int 6
   \<and> (2::nat) \<le> length [1, 2, 3, 4, 5 :: int]
   \<and> \<not> equal_to object_type_int 6 ([1, 2, 3, 4, 5] ! 0 * 2)
   \<and> \<not> equal_to object_type_int 6 ([1, 2, 3, 4, 5] ! 1 * 2)
   \<and> equal_to object_type_int 6 ([1, 2, 3, 4, 5] ! 2 * 2)
   \<and> iterate object_type_int
        (Map.empty(0 \<mapsto> take_before_fn_range (map (\<lambda>v. v * 2) [1, 2, 3, 4, 5]) 6)) 0
       = Inr (([2, 4], 2), Map.empty(0 \<mapsto> take_before_fn_range (map (\<lambda>v. v * 2) [1, 2, 3, 4, 5]) 6))"
  using composition [of "Map.empty(0 \<mapsto> take_before_fn_range (map (\<lambda>v. v * 2) [1, 2, 3, 4, 5]) 6)"
      0 "\<lambda>v. v * 2" "[1, 2, 3, 4, 5]" 6 object_type_int 2]
  by (simp add: object_type_int_def is_value_of_def less_Suc_eq numeral_2_eq_2)

section \<open>The end marker's comparison\<close>

text \<open>
  C2. Let \<open>y\<close> be the end marker that \<^verbatim>\<open>end()\<close> returns for the view built from \<open>S\<close>
  and \<open>v\<close>, and \<open>p\<close> a cursor that is dereferenceable or the end of \<open>S\<close>. The
  comparison of \<open>p\<close> with \<open>y\<close> is true exactly when \<open>p\<close> is the end of \<open>S\<close> or
  \<open>v\<close> compares equal to the element at \<open>p\<close>. The overload for cursors of the other
  access mode gives the same result, and so does the comparison with the marker on the
  left.
\<close>

theorem end_marker_equality:
  assumes "h this = Some (take_before_view_ctor S v)" and "is_value_of T v"
    and "take_before_view_end T h this = Inr (y, h')" and "p \<le> ranges_end S"
  shows "sentinel_eq T h S p y = Inr (p = ranges_end S \<or> (p < ranges_end S \<and> equal_to T v (S ! p)))
       \<and> sentinel_eq_other T h S p y = sentinel_eq T h S p y
       \<and> sentinel_eq_reversed T h S y p = sentinel_eq T h S p y"
proof -
  obtain y0 where y0: "take_before_view_end T h this = Inr (y0, h)"
      "sentinel_end y0 = length (view_base (take_before_view_ctor S v))"
      "tidy_obj T \<or> read_value h (sentinel_value y0) = Inr v"
    using end_of_engaged_view [where h = h and this = this and T = T and x = v, OF assms(1)]
    by (auto simp: take_before_view_ctor_def)
  have y: "y = y0" using assms(3) y0(1) by simp
  have e: "sentinel_end y = length S"
    using y0(2) y by (simp add: take_before_view_ctor_def)
  have r: "tidy_obj T \<or> read_value h (sentinel_value y) = Inr v"
    using y0(3) y by simp
  have "sentinel_eq T h S p y =
          (if p = length S then Inr True
           else if p < length S then Inr (equal_to T v (S ! p))
           else Inl PastTheEnd)"
    by (rule sentinel_eq_at [OF e r effective_value [OF assms(2), symmetric]])
  then have 1: "sentinel_eq T h S p y =
      Inr (p = ranges_end S \<or> (p < ranges_end S \<and> equal_to T v (S ! p)))"
    using assms(4) by (auto simp: ranges_end_def)
  have 2: "sentinel_eq_other T h S p y = sentinel_eq T h S p y"
    by (simp add: sentinel_eq_other_def sentinel_eq_def sentinel_eq_tidy_def sentinel_eq_value_def)
  have 3: "sentinel_eq_reversed T h S y p = sentinel_eq T h S p y"
    by (simp add: sentinel_eq_reversed_def)
  show ?thesis using 1 2 3 by blast
qed

theorem end_marker_equality_witness:
  "(Map.empty(0 \<mapsto> take_before_view_ctor [1, 2, 3] 2)) 0 = Some (take_before_view_ctor [1, 2, 3] 2)
   \<and> is_value_of object_type_int 2
   \<and> take_before_view_end object_type_int (Map.empty(0 \<mapsto> take_before_view_ctor [1, 2, 3] 2)) 0
        = Inr (sentinel_with_value 3 (Some 0), Map.empty(0 \<mapsto> take_before_view_ctor [1, 2, 3] 2))
   \<and> (1::nat) \<le> ranges_end [1, 2, 3 :: int]
   \<and> sentinel_eq object_type_int (Map.empty(0 \<mapsto> take_before_view_ctor [1, 2, 3] 2)) [1, 2, 3] 1
        (sentinel_with_value 3 (Some 0)) = Inr True
   \<and> sentinel_eq_reversed object_type_int (Map.empty(0 \<mapsto> take_before_view_ctor [1, 2, 3] 2))
        [1, 2, 3] (sentinel_with_value 3 (Some 0)) 1 = Inr True"
proof -
  have e: "take_before_view_end object_type_int (Map.empty(0 \<mapsto> take_before_view_ctor [1, 2, 3] 2)) 0
        = Inr (sentinel_with_value 3 (Some 0), Map.empty(0 \<mapsto> take_before_view_ctor [1, 2, 3] 2))"
    by (simp add: take_before_view_end_def take_before_view_ctor_def object_type_int_def
        tidy_obj_def ranges_end_def numeral_3_eq_3)
  show ?thesis
    using end_marker_equality [of "Map.empty(0 \<mapsto> take_before_view_ctor [1, 2, 3] 2)" 0
        "[1, 2, 3]" 2 object_type_int "sentinel_with_value 3 (Some 0)"
        "Map.empty(0 \<mapsto> take_before_view_ctor [1, 2, 3] 2)" 1] e
    by (simp add: object_type_int_def is_value_of_def ranges_end_def)
qed

text \<open>
  C7. For a tidy sentinel type \<open>T\<close>, a stored value \<open>v\<close> of that type and a
  dereferenceable cursor \<open>p\<close>, the comparison that builds a fresh \<^verbatim>\<open>T()\<close> returns
  what the comparison that reads the stored value through the marker's pointer returns.
\<close>

theorem tidy_comparison_same_as_stored:
  assumes "tidy_obj T" and "is_value_of T v"
    and "h a = Some view" and "view_value view = Some v" and "p < length xs"
  shows "sentinel_eq_tidy T xs p (sentinel_tidy e)
           = sentinel_eq_value T h xs p (sentinel_with_value e (Some a))"
  using assms
  by (simp add: sentinel_eq_tidy_def sentinel_eq_value_def sentinel_tidy_def
      sentinel_with_value_def read_value_def deref_def tidy_obj_def is_value_of_def)

theorem tidy_comparison_same_as_stored_witness:
  "tidy_obj (integral_constant 2) \<and> is_value_of (integral_constant 2) ()
   \<and> (Map.empty(0 \<mapsto> take_before_view_ctor [1, 2, 3] ())) 0 = Some (take_before_view_ctor [1, 2, 3] ())
   \<and> view_value (take_before_view_ctor [1, 2, 3 :: int] ()) = Some ()
   \<and> (1::nat) < length [1, 2, 3 :: int]
   \<and> sentinel_eq_tidy (integral_constant 2) [1, 2, 3] 1 (sentinel_tidy 3) = Inr True
   \<and> sentinel_eq_value (integral_constant 2) (Map.empty(0 \<mapsto> take_before_view_ctor [1, 2, 3] ()))
        [1, 2, 3] 1 (sentinel_with_value 3 (Some 0)) = Inr True"
  using tidy_comparison_same_as_stored [of "integral_constant 2" "()"
      "Map.empty(0 \<mapsto> take_before_view_ctor [1, 2, 3] ())" 0 "take_before_view_ctor [1, 2, 3] ()"
      1 "[1, 2, 3]" 3]
  by (simp add: integral_constant_def tidy_obj_def is_value_of_def take_before_view_ctor_def
      sentinel_eq_tidy_def sentinel_tidy_def deref_def)

section \<open>Conversion of the end marker\<close>

text \<open>
  C8. Converting an end marker built for mutable access into one for immutable access
  keeps the recorded end of the source; when \<open>T\<close> is not tidy it keeps the pointer to
  the sentinel value, so that the marker is unchanged (as it is for tidy \<open>T\<close> when its
  pointer is null, which is how every constructor leaves it). There is no conversion
  towards the marker for mutable access.
\<close>

theorem conversion_preserves_marker:
  "(\<exists>s'. sentinel_convert True T s = Some s'
         \<and> sentinel_end s' = sentinel_end s
         \<and> sentinel_base s' = sentinel_base s
         \<and> (\<not> tidy_obj T \<longrightarrow> sentinel_value s' = sentinel_value s)
         \<and> (\<not> tidy_obj T \<or> sentinel_value s = None \<longrightarrow> s' = s))
   \<and> sentinel_convert False T s = None"
  by (auto simp: sentinel_convert_def sentinel_base_def)

theorem conversion_preserves_marker_witness:
  "sentinel_convert True object_type_int (sentinel_with_value 3 (Some 0))
      = Some (sentinel_with_value 3 (Some 0))
   \<and> sentinel_convert True (integral_constant 2) (sentinel_tidy 3) = Some (sentinel_tidy 3)
   \<and> sentinel_convert False object_type_int (sentinel_with_value 3 (Some 0)) = None"
  using conversion_preserves_marker [of object_type_int "sentinel_with_value 3 (Some 0)"]
    conversion_preserves_marker [of "integral_constant 2" "sentinel_tidy 3"]
  by (auto simp: object_type_int_def integral_constant_def tidy_obj_def sentinel_with_value_def
      sentinel_tidy_def)

section \<open>The adaptor's deferred form\<close>




section \<open>Iterating twice\<close>

lemma iterate_keeps_store:
  "iterate T h this = Inr (r, h') \<Longrightarrow> h' = h"
  by (auto simp: iterate_def take_before_view_begin_def take_before_view_end_def
      split: option.splits sum.splits if_splits)

text \<open>
  C9. Two successive iterations of the same view visit the same elements and stop at the
  same cursor: \<^verbatim>\<open>begin()\<close>, \<^verbatim>\<open>end()\<close> and the loop leave the store, and with it
  the view, as they found it. For a view built from a sequence and a value both
  iterations return.
\<close>

theorem reiteration_identical:
  "(h this = Some (take_before_view_ctor S x) \<longrightarrow> (\<exists>r. iterate_twice T h this = Inr (r, r, h)))
   \<and> (\<forall>r1 r2 h2. iterate_twice T h this = Inr (r1, r2, h2) \<longrightarrow> r1 = r2 \<and> h2 = h)"
proof (intro conjI impI allI)
  assume v: "h this = Some (take_before_view_ctor S x)"
  have "view_value (take_before_view_ctor S x) = Some x"
    by (simp add: take_before_view_ctor_def)
  from iterate_engaged_view [where h = h and this = this and T = T, OF v this refl]
  show "\<exists>r. iterate_twice T h this = Inr (r, r, h)"
    by (simp add: iterate_twice_def)
next
  fix r1 r2 h2
  assume t: "iterate_twice T h this = Inr (r1, r2, h2)"
  then obtain h1 where 1: "iterate T h this = Inr (r1, h1)" and 2: "iterate T h1 this = Inr (r2, h2)"
    by (auto simp: iterate_twice_def split: sum.splits)
  have "h1 = h" using 1 by (rule iterate_keeps_store)
  moreover have "h2 = h1" using 2 by (rule iterate_keeps_store)
  ultimately show "r1 = r2" and "h2 = h" using 1 2 by simp_all
qed

theorem reiteration_identical_witness:
  "iterate_twice object_type_int (Map.empty(0 \<mapsto> take_before_view_ctor [1, 2, 3, 4, 5] 3)) 0
     = Inr (([1, 2], 2), ([1, 2], 2), Map.empty(0 \<mapsto> take_before_view_ctor [1, 2, 3, 4, 5] 3))"
proof -
  let ?h = "Map.empty(0 \<mapsto> take_before_view_ctor [1, 2, 3, 4, 5] (3::int))"
  have i: "iterate object_type_int ?h 0 = Inr (([1, 2], 2), ?h)"
    using iterate_ctor [of ?h 0 "[1, 2, 3, 4, 5]" 3 object_type_int]
    by (simp add: object_type_int_def is_value_of_def)
  obtain r where "iterate_twice object_type_int ?h 0 = Inr (r, r, ?h)"
    using reiteration_identical [of ?h 0 "[1, 2, 3, 4, 5]" 3 object_type_int] by auto
  then show ?thesis
    using i by (simp add: iterate_twice_def)
qed

section \<open>The default-constructed view\<close>

text \<open>
  C10. A default-constructed view whose sentinel type is not tidy is expected to hold a
  default-constructed \<^verbatim>\<open>T\<close> in its box, so that \<^verbatim>\<open>end()\<close> and the comparisons
  through its marker read a value that is there. The box is a \<^verbatim>\<open>std::optional<T>\<close>,
  whose default constructor leaves it without a value: for the sentinel type \<^verbatim>\<open>int\<close>
  and an empty \<^verbatim>\<open>V()\<close>, \<^verbatim>\<open>end()\<close> on the default-constructed view dereferences a
  disengaged optional.
\<close>

theorem default_view_end_reads_absent_value:
  "view_value (take_before_view_default ([] :: int list)) = (None :: int option)
   \<and> take_before_view_end object_type_int (Map.empty(0 \<mapsto> take_before_view_default [])) 0
       = Inl DisengagedOptional"
  by (simp add: take_before_view_default_def take_before_view_end_def object_type_int_def
      tidy_obj_def)

end
